theory Spec2Isabelle
  imports Main
begin

section \<open>The tic-tac-toe rules engine of \<^verbatim>\<open>tictacai/logic/models.py\<close>\<close>

text \<open>
  A shallow embedding of \<^verbatim>\<open>models.py\<close>: the frozen dataclasses \<^verbatim>\<open>Grid\<close>,
  \<^verbatim>\<open>GameState\<close> and \<^verbatim>\<open>Move\<close> are records, the enum \<^verbatim>\<open>Mark\<close> is a datatype,
  every exception is a value of \<open>error\<close>, and the Python string operations the module
  relies on (indexing, slicing, \<^verbatim>\<open>str.replace\<close>, \<^verbatim>\<open>str.count\<close>, \<^verbatim>\<open>re.match\<close>,
  \<^verbatim>\<open>re.finditer\<close>) are written out for the patterns the module uses.
  A Python \<^verbatim>\<open>str\<close> is a \<open>string\<close>; a \<open>char\<close> stands for a code point below 256.
\<close>

subsection \<open>Marks\<close>

text \<open>\<^verbatim>\<open>class Mark(str, enum.Enum)\<close>: \<^verbatim>\<open>CROSS = "X"\<close>, \<^verbatim>\<open>NAUGHT = "O"\<close>.\<close>

datatype Mark = CROSS | NAUGHT

fun mark_char :: "Mark \<Rightarrow> char" where
  "mark_char CROSS = CHR ''X''"
| "mark_char NAUGHT = CHR ''O''"

text \<open>The string a mark is, as a \<^verbatim>\<open>str\<close> subclass: one character.\<close>

definition mark_value :: "Mark \<Rightarrow> string" where
  "mark_value m = [mark_char m]"

text \<open>Iteration order of \<^verbatim>\<open>for mark in Mark\<close>: definition order.\<close>

definition Mark_members :: "Mark list" where
  "Mark_members = [CROSS, NAUGHT]"

text \<open>
  \<^verbatim>\<open>return Mark.NAUGHT if self is Mark.CROSS else Mark.NAUGHT\<close>: both branches of the
  source name \<^verbatim>\<open>NAUGHT\<close>.
\<close>

definition other :: "Mark \<Rightarrow> Mark" where
  "other self = (if self = CROSS then NAUGHT else NAUGHT)"

subsection \<open>Errors\<close>

text \<open>
  \<open>InvalidMove\<close> is raised by \<^verbatim>\<open>make_move_to\<close>; \<open>IndexError\<close> by Python's string
  indexing; \<open>MalformedBoard\<close> and \<open>InvalidPosition\<close> are what the construction of a
  \<^verbatim>\<open>Grid\<close> and of a \<^verbatim>\<open>GameState\<close> fail with, under the names the specification
  gives them (the validators that raise them are not among the sources).
\<close>

datatype error = InvalidMove | IndexError | MalformedBoard | InvalidPosition

subsection \<open>Python string operations\<close>

text \<open>\<^verbatim>\<open>s[i]\<close>: a negative index counts from the end; out of range raises.\<close>

definition py_getitem :: "string \<Rightarrow> int \<Rightarrow> error + char" where
  "py_getitem s i =
     (let n = int (length s); j = (if i < 0 then i + n else i)
      in if 0 \<le> j \<and> j < n then Inr (s ! nat j) else Inl IndexError)"

text \<open>
  A slice bound: a negative bound has the length added, and the result is clamped
  to \<open>[0, length]\<close>. Slices never raise.
\<close>

definition py_slice_bound :: "nat \<Rightarrow> int \<Rightarrow> nat" where
  "py_slice_bound n i =
     (if i < 0 then (if i + int n < 0 then 0 else nat (i + int n))
      else if int n < i then n else nat i)"

text \<open>\<^verbatim>\<open>s[:stop]\<close> and \<^verbatim>\<open>s[start:]\<close>.\<close>

definition py_slice_to :: "string \<Rightarrow> int \<Rightarrow> string" where
  "py_slice_to s stop = take (py_slice_bound (length s) stop) s"

definition py_slice_from :: "string \<Rightarrow> int \<Rightarrow> string" where
  "py_slice_from s start = drop (py_slice_bound (length s) start) s"

text \<open>\<^verbatim>\<open>pattern.replace("?", mark)\<close>: every \<^verbatim>\<open>?\<close> becomes the mark's string.\<close>

definition replace_question :: "string \<Rightarrow> Mark \<Rightarrow> string" where
  "replace_question pattern m =
     concat (map (\<lambda>c. if c = CHR ''?'' then mark_value m else [c]) pattern)"

text \<open>
  \<^verbatim>\<open>re.match(regex, s)\<close> for the regular expressions the module builds: a sequence of
  literal characters and \<^verbatim>\<open>.\<close>, which matches any character but a newline. The
  match is anchored at the start of \<open>s\<close> only; the result is whether a match object
  is returned.
\<close>

fun re_match :: "string \<Rightarrow> string \<Rightarrow> bool" where
  "re_match [] s = True"
| "re_match (p # ps) [] = False"
| "re_match (p # ps) (c # cs) =
     ((if p = CHR ''.'' then c \<noteq> CHR 0x0A else c = p) \<and> re_match ps cs)"

text \<open>
  \<^verbatim>\<open>[match.start() for match in re.finditer(cls, s)]\<close> for a regular expression that
  matches exactly one character of a class: the positions of the characters of the
  class, ascending.
\<close>

definition finditer_starts :: "(char \<Rightarrow> bool) \<Rightarrow> string \<Rightarrow> nat list" where
  "finditer_starts cls s = filter (\<lambda>i. cls (s ! i)) [0..<length s]"

text \<open>The class \<^verbatim>\<open>\?\<close>: the literal question mark.\<close>

definition is_question :: "char \<Rightarrow> bool" where
  "is_question c = (c = CHR ''?'')"

text \<open>
  The class \<^verbatim>\<open>\s\<close> of a \<^verbatim>\<open>str\<close> pattern: the characters \<^verbatim>\<open>str.isspace\<close> accepts,
  below code point 256.
\<close>

definition is_space :: "char \<Rightarrow> bool" where
  "is_space c = (c \<in> set [CHR 0x09, CHR 0x0A, CHR 0x0B, CHR 0x0C, CHR 0x0D,
     CHR 0x1C, CHR 0x1D, CHR 0x1E, CHR 0x1F, CHR 0x20, CHR 0x85, CHR 0xA0])"

subsection \<open>The data model\<close>

definition WINNING_PATTERNS :: "string list" where
  "WINNING_PATTERNS =
     [''???......'',
      ''...???...'',
      ''......???'',
      ''?..?..?..'',
      ''.?..?..?.'',
      ''..?..?..?'',
      ''?...?...?'',
      ''..?.?.?..'']"

record Grid =
  cells :: string

record GameState =
  grid :: Grid
  starting_mark :: Mark

record Move =
  mark :: Mark
  cell_index :: int
  before_state :: GameState
  after_state :: GameState

text \<open>\<^verbatim>\<open>self.cells.count("X")\<close>, \<^verbatim>\<open>count("O")\<close>, \<^verbatim>\<open>count(" ")\<close>.\<close>

definition x_count :: "Grid \<Rightarrow> nat" where
  "x_count g = count_list (cells g) (CHR ''X'')"

definition o_count :: "Grid \<Rightarrow> nat" where
  "o_count g = count_list (cells g) (CHR ''O'')"

definition empty_count :: "Grid \<Rightarrow> nat" where
  "empty_count g = count_list (cells g) (CHR '' '')"

subsection \<open>Queries of a game state\<close>

definition current_mark :: "GameState \<Rightarrow> Mark" where
  "current_mark s =
     (if x_count (grid s) = o_count (grid s) then starting_mark s
      else other (starting_mark s))"

definition game_not_started :: "GameState \<Rightarrow> bool" where
  "game_not_started s = (empty_count (grid s) = 9)"

text \<open>
  \<^verbatim>\<open>winner\<close>: the outer loop runs over the patterns, the inner loop over the marks,
  and the first match returns.
\<close>

fun winner_marks :: "string \<Rightarrow> string \<Rightarrow> Mark list \<Rightarrow> Mark option" where
  "winner_marks pattern cs [] = None"
| "winner_marks pattern cs (m # ms) =
     (if re_match (replace_question pattern m) cs then Some m
      else winner_marks pattern cs ms)"

fun winner_patterns :: "string list \<Rightarrow> string \<Rightarrow> Mark option" where
  "winner_patterns [] cs = None"
| "winner_patterns (pattern # ps) cs =
     (case winner_marks pattern cs Mark_members of
        Some m \<Rightarrow> Some m
      | None \<Rightarrow> winner_patterns ps cs)"

definition winner :: "GameState \<Rightarrow> Mark option" where
  "winner s = winner_patterns WINNING_PATTERNS (cells (grid s))"

definition tie :: "GameState \<Rightarrow> bool" where
  "tie s = (winner s = None \<and> empty_count (grid s) = 0)"

definition game_over :: "GameState \<Rightarrow> bool" where
  "game_over s = (winner s \<noteq> None \<or> tie s)"

text \<open>
  \<^verbatim>\<open>winning_cells\<close>: the same two loops; the first match returns the positions of
  the question marks of its pattern.
\<close>

fun winning_cells_marks :: "string \<Rightarrow> string \<Rightarrow> Mark list \<Rightarrow> nat list option" where
  "winning_cells_marks pattern cs [] = None"
| "winning_cells_marks pattern cs (m # ms) =
     (if re_match (replace_question pattern m) cs
      then Some (finditer_starts is_question pattern)
      else winning_cells_marks pattern cs ms)"

fun winning_cells_patterns :: "string list \<Rightarrow> string \<Rightarrow> nat list" where
  "winning_cells_patterns [] cs = []"
| "winning_cells_patterns (pattern # ps) cs =
     (case winning_cells_marks pattern cs Mark_members of
        Some r \<Rightarrow> r
      | None \<Rightarrow> winning_cells_patterns ps cs)"

definition winning_cells :: "GameState \<Rightarrow> nat list" where
  "winning_cells s = winning_cells_patterns WINNING_PATTERNS (cells (grid s))"

subsection \<open>Construction\<close>

text \<open>
  Modelled from the spec: the catalogue of the eight lines as index triples, in the
  order the specification lists them. The source has the lines only as the patterns
  above; \<open>starts_of_patterns\<close> below shows that the two agree.
\<close>

definition spec_lines :: "nat list list" where
  "spec_lines =
     [[0, 1, 2], [3, 4, 5], [6, 7, 8], [0, 3, 6], [1, 4, 7], [2, 5, 8], [0, 4, 8], [2, 4, 6]]"

text \<open>
  Modelled from the spec: the winning condition of a mark, "every cell in some line
  equals that mark", which the construction check below needs.
\<close>

definition line_held :: "string \<Rightarrow> Mark \<Rightarrow> nat list \<Rightarrow> bool" where
  "line_held cs m l = list_all (\<lambda>i. cs ! i = mark_char m) l"

definition spec_wins :: "string \<Rightarrow> Mark \<Rightarrow> bool" where
  "spec_wins cs m = list_ex (line_held cs m) spec_lines"

text \<open>
  Modelled from the spec: \<^verbatim>\<open>validate_grid\<close> of \<^verbatim>\<open>validators.py\<close>, which
  \<^verbatim>\<open>Grid.__post_init__\<close> calls and which is not among the sources. The specification:
  construction fails with \<open>MalformedBoard\<close> if the length is not 9 or a cell is not one
  of empty, X, O.
\<close>

definition validate_grid :: "Grid \<Rightarrow> error option" where
  "validate_grid g =
     (if length (cells g) \<noteq> 9 then Some MalformedBoard
      else if list_all (\<lambda>c. c = CHR '' '' \<or> c = CHR ''X'' \<or> c = CHR ''O'') (cells g)
      then None else Some MalformedBoard)"

text \<open>
  Modelled from the spec: \<^verbatim>\<open>validate_game_state\<close> of \<^verbatim>\<open>validators.py\<close>, which
  \<^verbatim>\<open>GameState.__post_init__\<close> calls and which is not among the sources. The
  specification: construction fails with \<open>InvalidPosition\<close> unless (1) the two counts
  differ by at most one, (2) at most one mark completes a line, and (3) if the
  starting mark went second by count, exactly one extra move belongs to the other
  mark. Read by its words, (3) asks nothing that (1) does not; it is checked as it is
  written.
\<close>

definition validate_game_state :: "GameState \<Rightarrow> error option" where
  "validate_game_state s =
     (let xc = int (x_count (grid s)); oc = int (o_count (grid s));
          mine = (if starting_mark s = CROSS then xc else oc);
          theirs = (if starting_mark s = CROSS then oc else xc)
      in if 1 < \<bar>xc - oc\<bar> then Some InvalidPosition
         else if spec_wins (cells (grid s)) CROSS \<and> spec_wins (cells (grid s)) NAUGHT
         then Some InvalidPosition
         else if mine < theirs \<and> theirs \<noteq> mine + 1 then Some InvalidPosition
         else None)"

text \<open>\<^verbatim>\<open>Grid(cells=cs)\<close> and \<^verbatim>\<open>GameState(g, starting_mark=m)\<close>: validated in \<^verbatim>\<open>__post_init__\<close>.\<close>

definition Grid_init :: "string \<Rightarrow> error + Grid" where
  "Grid_init cs =
     (case validate_grid \<lparr>cells = cs\<rparr> of
        Some e \<Rightarrow> Inl e
      | None \<Rightarrow> Inr \<lparr>cells = cs\<rparr>)"

definition GameState_init :: "Grid \<Rightarrow> Mark \<Rightarrow> error + GameState" where
  "GameState_init g m =
     (case validate_game_state \<lparr>grid = g, starting_mark = m\<rparr> of
        Some e \<Rightarrow> Inl e
      | None \<Rightarrow> Inr \<lparr>grid = g, starting_mark = m\<rparr>)"

text \<open>A Position: a game state whose grid and itself passed construction.\<close>

definition is_position :: "GameState \<Rightarrow> bool" where
  "is_position s = (validate_grid (grid s) = None \<and> validate_game_state s = None)"

subsection \<open>Moves\<close>

text \<open>
  \<^verbatim>\<open>make_move_to\<close>: the cell is read first (an index error surfaces here), then
  checked, then the new grid and the new state are constructed, each validated.
\<close>

definition make_move_to :: "GameState \<Rightarrow> int \<Rightarrow> error + Move" where
  "make_move_to s index =
     (case py_getitem (cells (grid s)) index of
        Inl e \<Rightarrow> Inl e
      | Inr c \<Rightarrow>
          if c \<noteq> CHR '' '' then Inl InvalidMove
          else
            (case Grid_init (py_slice_to (cells (grid s)) index
                             @ mark_value (current_mark s)
                             @ py_slice_from (cells (grid s)) (index + 1)) of
               Inl e \<Rightarrow> Inl e
             | Inr g \<Rightarrow>
                 (case GameState_init g (starting_mark s) of
                    Inl e \<Rightarrow> Inl e
                  | Inr a \<Rightarrow>
                      Inr \<lparr>mark = current_mark s, cell_index = index,
                           before_state = s, after_state = a\<rparr>)))"

text \<open>
  \<^verbatim>\<open>possible_moves\<close>: the loop appends one move per whitespace position; an
  exception of \<^verbatim>\<open>make_move_to\<close> leaves the loop and the property.
\<close>

fun collect_moves :: "GameState \<Rightarrow> nat list \<Rightarrow> error + Move list" where
  "collect_moves s [] = Inr []"
| "collect_moves s (i # is) =
     (case make_move_to s (int i) of
        Inl e \<Rightarrow> Inl e
      | Inr m \<Rightarrow>
          (case collect_moves s is of
             Inl e \<Rightarrow> Inl e
           | Inr ms \<Rightarrow> Inr (m # ms)))"

definition possible_moves :: "GameState \<Rightarrow> error + Move list" where
  "possible_moves s =
     (if \<not> game_over s
      then collect_moves s (finditer_starts is_space (cells (grid s)))
      else Inr [])"

section \<open>Properties\<close>

subsection \<open>Positions\<close>

text \<open>
  What construction guarantees of a Position: nine cells, each a space, an X or an O,
  hence no newline, which is the one character the pattern's dot refuses.
\<close>

lemma validate_grid_None_iff:
  "validate_grid g = None \<longleftrightarrow>
     length (cells g) = 9 \<and> (\<forall>c\<in>set (cells g). c = CHR '' '' \<or> c = CHR ''X'' \<or> c = CHR ''O'')"
  by (simp add: validate_grid_def list_all_iff)

lemma position_length: "is_position s \<Longrightarrow> length (cells (grid s)) = 9"
  by (simp add: is_position_def validate_grid_None_iff)

lemma position_cell:
  "is_position s \<Longrightarrow> c \<in> set (cells (grid s)) \<Longrightarrow> c = CHR '' '' \<or> c = CHR ''X'' \<or> c = CHR ''O''"
  by (simp add: is_position_def validate_grid_None_iff)

lemma position_no_newline: "is_position s \<Longrightarrow> CHR 0x0A \<notin> set (cells (grid s))"
  using position_cell [of s "CHR 0x0A"] by auto

lemma position_space: "is_position s \<Longrightarrow> n < 9 \<Longrightarrow> is_space (cells (grid s) ! n) \<Longrightarrow> cells (grid s) ! n = CHR '' ''"
  using position_cell [of s "cells (grid s) ! n"]
  by (auto simp: position_length is_space_def)

lemma mark_char_cell: "mark_char m = CHR '' '' \<or> mark_char m = CHR ''X'' \<or> mark_char m = CHR ''O''"
  by (cases m) simp_all

lemma mark_char_not_dot: "mark_char m \<noteq> CHR ''.''"
  by (cases m) simp_all

lemma ex_Mark_iff: "(\<exists>m. P m) \<longleftrightarrow> P CROSS \<or> P NAUGHT"
  by (metis Mark.exhaust)

lemma all_Mark_iff: "(\<forall>m. P m) \<longleftrightarrow> P CROSS \<and> P NAUGHT"
  by (metis Mark.exhaust)

lemma Mark_members_all: "m \<in> set Mark_members"
  by (cases m) (simp_all add: Mark_members_def)

subsection \<open>Patterns and lines\<close>

text \<open>
  A pattern with its question marks replaced matches a board exactly when the board
  holds the mark at every position of a question mark; the positions of the question
  marks of the eight patterns are the eight index triples.
\<close>

lemma replace_question_Cons:
  "replace_question (c # p) m = (if c = CHR ''?'' then mark_char m else c) # replace_question p m"
  by (simp add: replace_question_def mark_value_def)

lemma replace_question_Nil: "replace_question [] m = []"
  by (simp add: replace_question_def)

lemma re_match_replace:
  "set p \<subseteq> {CHR ''?'', CHR ''.''} \<Longrightarrow> length p \<le> length cs \<Longrightarrow> CHR 0x0A \<notin> set cs \<Longrightarrow>
   re_match (replace_question p m) cs \<longleftrightarrow> (\<forall>i<length p. p ! i = CHR ''?'' \<longrightarrow> cs ! i = mark_char m)"
proof (induction p arbitrary: cs)
  case Nil
  then show ?case by (simp add: replace_question_Nil)
next
  case (Cons a p)
  then obtain c cs' where cs: "cs = c # cs'" by (cases cs) auto
  from Cons.prems cs have IH:
    "re_match (replace_question p m) cs' \<longleftrightarrow> (\<forall>i<length p. p ! i = CHR ''?'' \<longrightarrow> cs' ! i = mark_char m)"
    by (intro Cons.IH) auto
  from Cons.prems have a: "a = CHR ''?'' \<or> a = CHR ''.''" by auto
  from Cons.prems cs have c: "c \<noteq> CHR 0x0A" by auto
  show ?case
    using a c by (auto simp: cs replace_question_Cons IH mark_char_not_dot All_less_Suc2 nth_Cons')
qed

lemma line_held_starts:
  "line_held cs m (finditer_starts is_question p) \<longleftrightarrow>
     (\<forall>i<length p. p ! i = CHR ''?'' \<longrightarrow> cs ! i = mark_char m)"
  by (auto simp: line_held_def finditer_starts_def is_question_def list_all_iff)

lemma WINNING_PATTERNS_shape:
  "p \<in> set WINNING_PATTERNS \<Longrightarrow> set p \<subseteq> {CHR ''?'', CHR ''.''} \<and> length p = 9"
  by (auto simp: WINNING_PATTERNS_def)

lemma re_match_line_held:
  "p \<in> set WINNING_PATTERNS \<Longrightarrow> length cs = 9 \<Longrightarrow> CHR 0x0A \<notin> set cs \<Longrightarrow>
   re_match (replace_question p m) cs \<longleftrightarrow> line_held cs m (finditer_starts is_question p)"
  using WINNING_PATTERNS_shape [of p] by (simp add: re_match_replace line_held_starts)

lemma starts_of_patterns: "map (finditer_starts is_question) WINNING_PATTERNS = spec_lines"
  by (simp add: WINNING_PATTERNS_def spec_lines_def finditer_starts_def is_question_def upt_rec)

lemma spec_line_shape: "l \<in> set spec_lines \<Longrightarrow> length l = 3 \<and> sorted_wrt (<) l"
  by (auto simp: spec_lines_def)

lemma starts_in_spec_lines:
  "p \<in> set WINNING_PATTERNS \<Longrightarrow> finditer_starts is_question p \<in> set spec_lines"
  by (simp only: starts_of_patterns [symmetric]) simp

lemma spec_wins_iff:
  "spec_wins cs m \<longleftrightarrow> (\<exists>l\<in>set spec_lines. \<forall>i\<in>set l. cs ! i = mark_char m)"
  by (simp add: spec_wins_def line_held_def list_ex_iff list_all_iff)

lemma spec_wins_re_match:
  assumes "length cs = 9" "CHR 0x0A \<notin> set cs"
  shows "spec_wins cs m \<longleftrightarrow> (\<exists>p\<in>set WINNING_PATTERNS. re_match (replace_question p m) cs)"
proof -
  have "spec_wins cs m \<longleftrightarrow>
      (\<exists>l\<in>set (map (finditer_starts is_question) WINNING_PATTERNS). line_held cs m l)"
    by (simp only: starts_of_patterns spec_wins_def list_ex_iff)
  also have "\<dots> \<longleftrightarrow> (\<exists>p\<in>set WINNING_PATTERNS. line_held cs m (finditer_starts is_question p))"
    by auto
  also have "\<dots> \<longleftrightarrow> (\<exists>p\<in>set WINNING_PATTERNS. re_match (replace_question p m) cs)"
    using assms by (simp add: re_match_line_held)
  finally show ?thesis .
qed

lemma position_one_winner:
  "is_position s \<Longrightarrow> spec_wins (cells (grid s)) m \<Longrightarrow> spec_wins (cells (grid s)) m' \<Longrightarrow> m = m'"
  by (cases m; cases m') (auto simp: is_position_def validate_game_state_def Let_def split: if_splits)

subsection \<open>Marks and turns\<close>

text \<open>
  C1. The claim: \<open>other\<close> is the complement, \<open>other CROSS = NAUGHT\<close> and
  \<open>other NAUGHT = CROSS\<close>. The source returns \<open>NAUGHT\<close> for \<open>NAUGHT\<close> as well, so
  \<open>other\<close> is constant and no involution.
\<close>

theorem other_NAUGHT_stays_NAUGHT:
  "other NAUGHT = NAUGHT \<and> other CROSS = NAUGHT \<and> other (other CROSS) = NAUGHT"
  by (simp add: other_def)

text \<open>
  C2. The claim: \<open>current_mark\<close> is the starting mark when the two counts are equal
  and the opposite mark otherwise, for both starting marks. After NAUGHT has opened
  (board \<^verbatim>\<open>"O        "\<close>, NAUGHT started) the counts differ and it is CROSS's turn;
  the source answers \<open>NAUGHT\<close>, because the opposite mark is computed by \<open>other\<close>.
\<close>

theorem current_mark_after_NAUGHT_opening:
  "is_position \<lparr>grid = \<lparr>cells = ''O        ''\<rparr>, starting_mark = NAUGHT\<rparr>
   \<and> x_count \<lparr>cells = ''O        ''\<rparr> \<noteq> o_count \<lparr>cells = ''O        ''\<rparr>
   \<and> current_mark \<lparr>grid = \<lparr>cells = ''O        ''\<rparr>, starting_mark = NAUGHT\<rparr> = NAUGHT"
  by code_simp

subsection \<open>The winner\<close>

lemma winner_marks_Some:
  "winner_marks p cs ms = Some m \<Longrightarrow> re_match (replace_question p m) cs"
  by (induction ms) (auto split: if_splits)

lemma winner_marks_None:
  "winner_marks p cs ms = None \<longleftrightarrow> (\<forall>m\<in>set ms. \<not> re_match (replace_question p m) cs)"
  by (induction ms) auto

lemma winner_patterns_Some:
  "winner_patterns ps cs = Some m \<Longrightarrow> \<exists>p\<in>set ps. re_match (replace_question p m) cs"
  by (induction ps) (auto split: option.splits dest: winner_marks_Some)

lemma winner_patterns_None:
  "winner_patterns ps cs = None \<longleftrightarrow> (\<forall>p\<in>set ps. \<forall>m. \<not> re_match (replace_question p m) cs)"
  by (induction ps)
    (auto simp: winner_marks_None Mark_members_all split: option.splits dest!: winner_marks_Some)

lemma winner_spec_wins:
  assumes "is_position s"
  shows "winner s = Some m \<longleftrightarrow> spec_wins (cells (grid s)) m"
proof
  let ?cs = "cells (grid s)"
  have len: "length ?cs = 9" and nl: "CHR 0x0A \<notin> set ?cs"
    using assms by (simp_all add: position_length position_no_newline)
  show "spec_wins ?cs m" if "winner s = Some m"
    using that winner_patterns_Some [of WINNING_PATTERNS ?cs m]
    by (simp add: winner_def spec_wins_re_match [OF len nl])
  show "winner s = Some m" if w: "spec_wins ?cs m"
  proof (cases "winner s")
    case None
    then show ?thesis
      using w by (simp add: winner_def winner_patterns_None spec_wins_re_match [OF len nl])
  next
    case (Some m')
    then have "spec_wins ?cs m'"
      using winner_patterns_Some [of WINNING_PATTERNS ?cs m']
      by (simp add: winner_def spec_wins_re_match [OF len nl])
    from position_one_winner [OF assms w this] have "m = m'" .
    with Some show ?thesis by simp
  qed
qed

text \<open>
  C3. For every Position, \<open>winner\<close> returns \<open>Some m\<close> exactly when one of the
  eight lines has all three cells equal to \<open>m\<close>, and \<open>None\<close> exactly when no line
  is held by any mark. The direction from a held line to the winner rests on the
  construction check that at most one mark holds a line: the loops return the first
  match.
\<close>

theorem winner_iff_line:
  assumes "is_position s"
  shows "(winner s = Some m) =
           (\<exists>l\<in>set spec_lines. \<forall>i\<in>set l. cells (grid s) ! i = mark_char m)
         \<and> (winner s = None) =
           (\<forall>m'. \<not> (\<exists>l\<in>set spec_lines. \<forall>i\<in>set l. cells (grid s) ! i = mark_char m'))"
proof -
  have some: "winner s = Some k \<longleftrightarrow>
      (\<exists>l\<in>set spec_lines. \<forall>i\<in>set l. cells (grid s) ! i = mark_char k)" for k
    using winner_spec_wins [OF assms, of k] by (simp add: spec_wins_iff)
  have "winner s = None \<longleftrightarrow> (\<forall>k. winner s \<noteq> Some k)" by auto
  then show ?thesis by (simp only: some)
qed

theorem winner_iff_line_witness:
  "is_position \<lparr>grid = \<lparr>cells = ''XO OX   X''\<rparr>, starting_mark = CROSS\<rparr>
   \<and> winner \<lparr>grid = \<lparr>cells = ''XO OX   X''\<rparr>, starting_mark = CROSS\<rparr> = Some CROSS
   \<and> winner \<lparr>grid = \<lparr>cells = ''XO OX    ''\<rparr>, starting_mark = CROSS\<rparr> = None"
proof -
  let ?s = "\<lparr>grid = \<lparr>cells = ''XO OX   X''\<rparr>, starting_mark = CROSS\<rparr>"
  let ?t = "\<lparr>grid = \<lparr>cells = ''XO OX    ''\<rparr>, starting_mark = CROSS\<rparr>"
  have pos: "is_position ?s" "is_position ?t" by code_simp+
  have "winner ?s = Some CROSS"
    using winner_iff_line [OF pos(1), of CROSS] by (simp add: spec_lines_def)
  moreover have "winner ?t = None"
    using winner_iff_line [OF pos(2), of CROSS] by (simp add: spec_lines_def all_Mark_iff)
  ultimately show ?thesis using pos by simp
qed

subsection \<open>The winning cells\<close>

lemma winning_cells_marks_eq:
  "winning_cells_marks p cs ms =
     (if \<exists>m\<in>set ms. re_match (replace_question p m) cs
      then Some (finditer_starts is_question p) else None)"
  by (induction ms) auto

lemma winning_cells_patterns_find:
  "winning_cells_patterns ps cs =
     (case find (\<lambda>p. \<exists>m. re_match (replace_question p m) cs) ps of
        None \<Rightarrow> []
      | Some p \<Rightarrow> finditer_starts is_question p)"
  by (induction ps) (auto simp: winning_cells_marks_eq Mark_members_all)

lemma find_over_map: "find P (map f xs) = map_option f (find (\<lambda>x. P (f x)) xs)"
  by (induction xs) auto

lemma find_spec_lines:
  assumes "length cs = 9" "CHR 0x0A \<notin> set cs"
  shows "find (\<lambda>l. \<exists>m. line_held cs m l) spec_lines =
     map_option (finditer_starts is_question)
       (find (\<lambda>p. \<exists>m. re_match (replace_question p m) cs) WINNING_PATTERNS)"
proof -
  have "find (\<lambda>p. \<exists>m. line_held cs m (finditer_starts is_question p)) WINNING_PATTERNS =
        find (\<lambda>p. \<exists>m. re_match (replace_question p m) cs) WINNING_PATTERNS"
    using assms by (intro find_cong refl) (simp add: re_match_line_held)
  then show ?thesis
    by (simp only: starts_of_patterns [symmetric] find_over_map)
qed

lemma winning_cells_empty_iff: "winning_cells s = [] \<longleftrightarrow> winner s = None"
proof (cases "find (\<lambda>p. \<exists>m. re_match (replace_question p m) (cells (grid s))) WINNING_PATTERNS")
  case None
  then have "\<forall>p\<in>set WINNING_PATTERNS. \<forall>m. \<not> re_match (replace_question p m) (cells (grid s))"
    by (auto simp: find_None_iff)
  then have "winner s = None"
    by (simp add: winner_def winner_patterns_None)
  moreover have "winning_cells s = []"
    by (simp add: winning_cells_def winning_cells_patterns_find None)
  ultimately show ?thesis by simp
next
  case (Some p)
  then have p: "p \<in> set WINNING_PATTERNS" "\<exists>m. re_match (replace_question p m) (cells (grid s))"
    by (auto simp: find_Some_iff)
  from p(1) have "finditer_starts is_question p \<noteq> []"
    using spec_line_shape [OF starts_in_spec_lines] by fastforce
  moreover from p have "winner s \<noteq> None"
    by (auto simp: winner_def winner_patterns_None)
  ultimately show ?thesis
    using Some by (simp add: winning_cells_def winning_cells_patterns_find)
qed

lemma winning_cells_spec:
  assumes "is_position s"
  shows "winning_cells s =
     (case find (\<lambda>l. \<exists>m. line_held (cells (grid s)) m l) spec_lines of
        None \<Rightarrow> [] | Some l \<Rightarrow> l)"
  using assms
  by (simp add: winning_cells_def winning_cells_patterns_find find_spec_lines
      position_length position_no_newline split: option.splits)

text \<open>
  C9. For every Position, \<open>winning_cells\<close> is the first line of the catalogue, in
  catalogue order, all of whose cells hold one mark; its three indices are ascending;
  and the result is empty exactly when \<open>winner\<close> is \<open>None\<close>.
\<close>

theorem winning_cells_first_line:
  assumes "is_position s"
  shows "winning_cells s =
           (case find (\<lambda>l. \<exists>m. \<forall>i\<in>set l. cells (grid s) ! i = mark_char m) spec_lines of
              None \<Rightarrow> []
            | Some l \<Rightarrow> l)
         \<and> sorted_wrt (<) (winning_cells s)
         \<and> (winning_cells s = []) = (winner s = None)
         \<and> (winner s \<noteq> None \<longrightarrow> length (winning_cells s) = 3)"
proof -
  let ?P = "\<lambda>l. \<exists>m. \<forall>i\<in>set l. cells (grid s) ! i = mark_char m"
  have eq: "winning_cells s = (case find ?P spec_lines of None \<Rightarrow> [] | Some l \<Rightarrow> l)"
    using winning_cells_spec [OF assms] by (simp add: line_held_def list_all_iff)
  have shape: "winning_cells s = [] \<or> winning_cells s \<in> set spec_lines"
  proof (cases "find ?P spec_lines")
    case None
    with eq show ?thesis by simp
  next
    case (Some l)
    then have "l \<in> set spec_lines" by (auto simp: find_Some_iff)
    with eq Some show ?thesis by simp
  qed
  have srt: "sorted_wrt (<) (winning_cells s)"
    using shape spec_line_shape by fastforce
  have len: "length (winning_cells s) = 3" if "winner s \<noteq> None"
    using shape spec_line_shape that winning_cells_empty_iff [of s] by fastforce
  show ?thesis
    using eq srt len winning_cells_empty_iff [of s] by blast
qed

theorem winning_cells_first_line_witness:
  "is_position \<lparr>grid = \<lparr>cells = ''XXX......''\<rparr>, starting_mark = CROSS\<rparr> = False
   \<and> is_position \<lparr>grid = \<lparr>cells = ''XXXOO    ''\<rparr>, starting_mark = CROSS\<rparr>
   \<and> winning_cells \<lparr>grid = \<lparr>cells = ''XXXOO    ''\<rparr>, starting_mark = CROSS\<rparr> = [0, 1, 2]
   \<and> winning_cells \<lparr>grid = \<lparr>cells = ''O XOX X  ''\<rparr>, starting_mark = CROSS\<rparr> = [2, 4, 6]"
proof -
  let ?s = "\<lparr>grid = \<lparr>cells = ''XXXOO    ''\<rparr>, starting_mark = CROSS\<rparr>"
  let ?t = "\<lparr>grid = \<lparr>cells = ''O XOX X  ''\<rparr>, starting_mark = CROSS\<rparr>"
  have pos: "is_position ?s" "is_position ?t" by code_simp+
  have neg: "is_position \<lparr>grid = \<lparr>cells = ''XXX......''\<rparr>, starting_mark = CROSS\<rparr> = False"
    by code_simp
  have "winning_cells ?s = [0, 1, 2]"
    using winning_cells_first_line [OF pos(1)] by (simp add: spec_lines_def ex_Mark_iff)
  moreover have "winning_cells ?t = [2, 4, 6]"
    using winning_cells_first_line [OF pos(2)] by (simp add: spec_lines_def ex_Mark_iff)
  ultimately show ?thesis using pos neg by simp
qed

subsection \<open>The end of the game\<close>

text \<open>
  C8. For every game state, \<open>tie\<close> holds exactly when there is no winner and no
  empty cell, \<open>game_over\<close> is a winner or a tie, and the two cases exclude each other.
\<close>

theorem game_over_winner_or_tie:
  "tie s = (winner s = None \<and> empty_count (grid s) = 0)
   \<and> game_over s = (winner s \<noteq> None \<or> tie s)
   \<and> \<not> (winner s \<noteq> None \<and> tie s)"
  by (auto simp: tie_def game_over_def)

theorem game_over_winner_or_tie_witness:
  "tie \<lparr>grid = \<lparr>cells = ''XOXXOXOXO''\<rparr>, starting_mark = CROSS\<rparr>
   \<and> winner \<lparr>grid = \<lparr>cells = ''XOXXOXOXO''\<rparr>, starting_mark = CROSS\<rparr> = None
   \<and> game_over \<lparr>grid = \<lparr>cells = ''XOXXOXOXO''\<rparr>, starting_mark = CROSS\<rparr>
   \<and> winner \<lparr>grid = \<lparr>cells = ''XXX OO   ''\<rparr>, starting_mark = CROSS\<rparr> = Some CROSS
   \<and> tie \<lparr>grid = \<lparr>cells = ''XXX OO   ''\<rparr>, starting_mark = CROSS\<rparr> = False
   \<and> game_over \<lparr>grid = \<lparr>cells = ''XXX OO   ''\<rparr>, starting_mark = CROSS\<rparr>"
proof -
  let ?t = "\<lparr>grid = \<lparr>cells = ''XOXXOXOXO''\<rparr>, starting_mark = CROSS\<rparr>"
  let ?w = "\<lparr>grid = \<lparr>cells = ''XXX OO   ''\<rparr>, starting_mark = CROSS\<rparr>"
  have t: "winner ?t = None" "empty_count (grid ?t) = 0" by code_simp+
  have w: "winner ?w = Some CROSS" by code_simp
  show ?thesis
    using game_over_winner_or_tie [of ?t] game_over_winner_or_tie [of ?w] t w by simp
qed

subsection \<open>Making a move\<close>

text \<open>
  With the cell read at position \<open>n\<close> and the board cut around \<open>n\<close>, a move either
  finds the cell occupied, or builds the board with cell \<open>n\<close> set to the current mark
  and submits it to the construction of a game state.
\<close>

lemma Grid_init_update:
  assumes "is_position s" "n < 9"
  shows "Grid_init ((cells (grid s))[n := mark_char m]) = Inr \<lparr>cells = (cells (grid s))[n := mark_char m]\<rparr>"
proof -
  have "validate_grid \<lparr>cells = (cells (grid s))[n := mark_char m]\<rparr> = None"
    using assms position_cell [OF assms(1)] mark_char_cell [of m]
    by (auto simp: validate_grid_None_iff position_length dest!: subsetD [OF set_update_subset_insert])
  then show ?thesis by (simp add: Grid_init_def)
qed

lemma make_move_to_at:
  assumes pos: "is_position s" and n: "n < 9"
    and get: "py_getitem (cells (grid s)) i = Inr (cells (grid s) ! n)"
    and pre: "py_slice_to (cells (grid s)) i = take n (cells (grid s))"
    and post: "py_slice_from (cells (grid s)) (i + 1) = drop (Suc n) (cells (grid s))"
  shows "make_move_to s i =
     (if cells (grid s) ! n \<noteq> CHR '' '' then Inl InvalidMove
      else case validate_game_state
                  \<lparr>grid = \<lparr>cells = (cells (grid s))[n := mark_char (current_mark s)]\<rparr>,
                   starting_mark = starting_mark s\<rparr> of
             Some e \<Rightarrow> Inl e
           | None \<Rightarrow>
               Inr \<lparr>mark = current_mark s, cell_index = i, before_state = s,
                    after_state =
                      \<lparr>grid = \<lparr>cells = (cells (grid s))[n := mark_char (current_mark s)]\<rparr>,
                       starting_mark = starting_mark s\<rparr>\<rparr>)"
proof -
  have len: "n < length (cells (grid s))"
    using pos n by (simp add: position_length)
  have "py_slice_to (cells (grid s)) i @ mark_value (current_mark s)
          @ py_slice_from (cells (grid s)) (i + 1)
        = (cells (grid s))[n := mark_char (current_mark s)]"
    by (simp add: pre post mark_value_def upd_conv_take_nth_drop [OF len])
  then show ?thesis
    by (simp add: make_move_to_def get Grid_init_update [OF pos n] GameState_init_def
        split: option.splits)
qed

lemma index_in_range:
  assumes "length cs = 9" "0 \<le> i" "i < 9"
  shows "py_getitem cs i = Inr (cs ! nat i)"
    and "py_slice_to cs i = take (nat i) cs"
    and "py_slice_from cs (i + 1) = drop (Suc (nat i)) cs"
  using assms
  by (simp_all add: py_getitem_def py_slice_to_def py_slice_from_def py_slice_bound_def
      Let_def nat_add_distrib)

lemma index_negative:
  assumes "length cs = 9" "- 9 \<le> i" "i \<le> - 2"
  shows "py_getitem cs i = Inr (cs ! nat (i + 9))"
    and "py_slice_to cs i = take (nat (i + 9)) cs"
    and "py_slice_from cs (i + 1) = drop (Suc (nat (i + 9))) cs"
  using assms
  by (simp_all add: py_getitem_def py_slice_to_def py_slice_from_def py_slice_bound_def
      Let_def nat_add_distrib Suc_nat_eq_nat_zadd1 add.commute)

lemma make_move_to_in_range:
  assumes "is_position s" "0 \<le> i" "i < 9"
  shows "make_move_to s i =
     (if cells (grid s) ! nat i \<noteq> CHR '' '' then Inl InvalidMove
      else case validate_game_state
                  \<lparr>grid = \<lparr>cells = (cells (grid s))[nat i := mark_char (current_mark s)]\<rparr>,
                   starting_mark = starting_mark s\<rparr> of
             Some e \<Rightarrow> Inl e
           | None \<Rightarrow>
               Inr \<lparr>mark = current_mark s, cell_index = i, before_state = s,
                    after_state =
                      \<lparr>grid = \<lparr>cells = (cells (grid s))[nat i := mark_char (current_mark s)]\<rparr>,
                       starting_mark = starting_mark s\<rparr>\<rparr>)"
  using assms
  by (intro make_move_to_at index_in_range position_length) simp_all

lemma make_move_to_negative:
  assumes "is_position s" "- 9 \<le> i" "i \<le> - 2"
  shows "make_move_to s i =
     (if cells (grid s) ! nat (i + 9) \<noteq> CHR '' '' then Inl InvalidMove
      else case validate_game_state
                  \<lparr>grid = \<lparr>cells = (cells (grid s))[nat (i + 9) := mark_char (current_mark s)]\<rparr>,
                   starting_mark = starting_mark s\<rparr> of
             Some e \<Rightarrow> Inl e
           | None \<Rightarrow>
               Inr \<lparr>mark = current_mark s, cell_index = i, before_state = s,
                    after_state =
                      \<lparr>grid = \<lparr>cells = (cells (grid s))[nat (i + 9) := mark_char (current_mark s)]\<rparr>,
                       starting_mark = starting_mark s\<rparr>\<rparr>)"
  using assms
  by (intro make_move_to_at index_negative position_length) simp_all

lemma validate_game_state_error: "validate_game_state a = Some e \<Longrightarrow> e = InvalidPosition"
  by (auto simp: validate_game_state_def Let_def split: if_splits)

lemma count_list_update_new:
  "i < length xs \<Longrightarrow> xs ! i \<noteq> y \<Longrightarrow> count_list (xs[i := y]) y = Suc (count_list xs y)"
  by (induction xs arbitrary: i) (auto simp: nth_Cons' split: nat.splits if_splits)

lemma count_list_update_other:
  "i < length xs \<Longrightarrow> xs ! i \<noteq> z \<Longrightarrow> y \<noteq> z \<Longrightarrow> count_list (xs[i := y]) z = count_list xs z"
  by (induction xs arbitrary: i) (auto simp: nth_Cons' split: nat.splits if_splits)

lemma spec_wins_update:
  assumes "spec_wins (cs[n := mark_char k]) m" "m \<noteq> k"
  shows "spec_wins cs m"
proof -
  from assms(1) obtain l where l: "l \<in> set spec_lines" "\<forall>i\<in>set l. cs[n := mark_char k] ! i = mark_char m"
    by (auto simp: spec_wins_iff)
  have "cs ! i = mark_char m" if "i \<in> set l" for i
  proof (cases "i = n \<and> n < length cs")
    case True
    with l(2) that have "mark_char k = mark_char m" by auto
    with assms(2) show ?thesis by (cases k; cases m) simp_all
  next
    case False
    with l(2) that show ?thesis
      by (cases "n < length cs") (auto simp: nth_list_update list_update_beyond not_less)
  qed
  with l(1) show ?thesis by (auto simp: spec_wins_iff)
qed

text \<open>
  On an open Position in which O holds no more cells than X, the board with the
  current mark on an empty cell passes the construction check: the counts stay
  balanced, and a mark placed cannot complete a line of the other mark.
\<close>

lemma successor_accepted:
  assumes pos: "is_position s" and live: "\<not> game_over s"
    and cnt: "o_count (grid s) \<le> x_count (grid s)"
    and n: "n < 9" "cells (grid s) ! n = CHR '' ''"
  shows "validate_game_state
           \<lparr>grid = \<lparr>cells = (cells (grid s))[n := mark_char (current_mark s)]\<rparr>,
            starting_mark = starting_mark s\<rparr> = None"
proof -
  let ?cs = "cells (grid s)"
  let ?k = "current_mark s"
  have len: "n < length ?cs" using pos n by (simp add: position_length)
  have bal: "int (x_count (grid s)) - int (o_count (grid s)) \<le> 1"
    using pos by (auto simp: is_position_def validate_game_state_def Let_def split: if_splits)
  have none: "\<not> spec_wins ?cs m" for m
    using live winner_spec_wins [OF pos, of m] by (auto simp: game_over_def)
  have one: "\<not> (spec_wins (?cs[n := mark_char ?k]) CROSS \<and> spec_wins (?cs[n := mark_char ?k]) NAUGHT)"
    using spec_wins_update [of ?cs n ?k] none by (cases ?k) auto
  have counts:
    "x_count \<lparr>cells = ?cs[n := mark_char ?k]\<rparr> = (if ?k = CROSS then Suc (x_count (grid s)) else x_count (grid s))"
    "o_count \<lparr>cells = ?cs[n := mark_char ?k]\<rparr> = (if ?k = NAUGHT then Suc (o_count (grid s)) else o_count (grid s))"
    using len n(2)
    by (cases ?k; simp add: x_count_def o_count_def count_list_update_new count_list_update_other)+
  have turn: "?k = CROSS \<longleftrightarrow> x_count (grid s) = o_count (grid s) \<and> starting_mark s = CROSS"
    "?k = NAUGHT \<longleftrightarrow> \<not> (x_count (grid s) = o_count (grid s) \<and> starting_mark s = CROSS)"
    by (cases "starting_mark s"; simp add: current_mark_def other_def)+
  show ?thesis
    using one cnt bal
    by (cases "starting_mark s") (auto simp: validate_game_state_def Let_def counts turn)
qed

text \<open>
  C5. For every Position, terminal or not, and every index from 0 to 8,
  \<open>make_move_to\<close> raises \<open>InvalidMove\<close> exactly when the target cell is not empty.
  Whether the game is over plays no part in the call: with an empty target the result
  is decided by the construction of the state after alone, a move when it passes and
  its error when it does not. On the won board \<^verbatim>\<open>"XXX OO   "\<close> the occupied cell 0
  raises \<open>InvalidMove\<close> and the empty cell 8 returns the move of O.
\<close>

theorem make_move_to_InvalidMove_iff:
  assumes "is_position s" "0 \<le> i" "i < 9"
  shows "(make_move_to s i = Inl InvalidMove) = (cells (grid s) ! nat i \<noteq> CHR '' '')
       \<and> make_move_to s i =
           (if cells (grid s) ! nat i \<noteq> CHR '' '' then Inl InvalidMove
            else case validate_game_state
                        \<lparr>grid = \<lparr>cells = (cells (grid s))[nat i := mark_char (current_mark s)]\<rparr>,
                         starting_mark = starting_mark s\<rparr> of
                   Some e \<Rightarrow> Inl e
                 | None \<Rightarrow>
                     Inr \<lparr>mark = current_mark s, cell_index = i, before_state = s,
                          after_state =
                            \<lparr>grid = \<lparr>cells = (cells (grid s))[nat i := mark_char (current_mark s)]\<rparr>,
                             starting_mark = starting_mark s\<rparr>\<rparr>)"
proof -
  note eq = make_move_to_in_range [OF assms]
  have "(make_move_to s i = Inl InvalidMove) = (cells (grid s) ! nat i \<noteq> CHR '' '')"
    using validate_game_state_error by (fastforce simp: eq split: option.splits)
  with eq show ?thesis by blast
qed

theorem make_move_to_InvalidMove_iff_witness:
  "is_position \<lparr>grid = \<lparr>cells = ''XXX OO   ''\<rparr>, starting_mark = CROSS\<rparr>
   \<and> game_over \<lparr>grid = \<lparr>cells = ''XXX OO   ''\<rparr>, starting_mark = CROSS\<rparr>
   \<and> make_move_to \<lparr>grid = \<lparr>cells = ''XXX OO   ''\<rparr>, starting_mark = CROSS\<rparr> 0 = Inl InvalidMove
   \<and> make_move_to \<lparr>grid = \<lparr>cells = ''XXX OO   ''\<rparr>, starting_mark = CROSS\<rparr> 8 =
       Inr \<lparr>mark = NAUGHT, cell_index = 8,
            before_state = \<lparr>grid = \<lparr>cells = ''XXX OO   ''\<rparr>, starting_mark = CROSS\<rparr>,
            after_state = \<lparr>grid = \<lparr>cells = ''XXX OO  O''\<rparr>, starting_mark = CROSS\<rparr>\<rparr>"
proof -
  let ?s = "\<lparr>grid = \<lparr>cells = ''XXX OO   ''\<rparr>, starting_mark = CROSS\<rparr>"
  have pos: "is_position ?s" by code_simp
  have over: "game_over ?s" by code_simp
  have cur: "current_mark ?s = NAUGHT" by code_simp
  have ok: "validate_game_state \<lparr>grid = \<lparr>cells = ''XXX OO  O''\<rparr>, starting_mark = CROSS\<rparr> = None"
    by code_simp
  have "make_move_to ?s 0 = Inl InvalidMove"
    using make_move_to_InvalidMove_iff [OF pos, of 0] by simp
  moreover have "make_move_to ?s 8 =
       Inr \<lparr>mark = NAUGHT, cell_index = 8, before_state = ?s,
            after_state = \<lparr>grid = \<lparr>cells = ''XXX OO  O''\<rparr>, starting_mark = CROSS\<rparr>\<rparr>"
    using make_move_to_InvalidMove_iff [OF pos, of 8] by (simp add: cur ok)
  ultimately show ?thesis using pos over by simp
qed

text \<open>
  C6, as amended. The claim was an index error for every index outside \<open>[0, 9)\<close>.
  Python counts a negative index from the end, so the indices from -9 to -1 read a
  cell. What holds: an index of 9 or more, or below -9, raises \<open>IndexError\<close>
  and no move is returned; and index -1 returns no move either, with \<open>InvalidMove\<close>
  when cell 8 is occupied and otherwise with the rejection of the board of 18 cells
  that the two slices build.
\<close>

theorem make_move_to_far_index:
  assumes "is_position s"
  shows "(9 \<le> i \<or> i < - 9 \<longrightarrow> make_move_to s i = Inl IndexError)
       \<and> make_move_to s (- 1) =
           (if cells (grid s) ! 8 \<noteq> CHR '' '' then Inl InvalidMove else Inl MalformedBoard)"
proof -
  have len: "length (cells (grid s)) = 9"
    using assms by (rule position_length)
  have far: "make_move_to s i = Inl IndexError" if "9 \<le> i \<or> i < - 9"
    using that len by (auto simp: make_move_to_def py_getitem_def Let_def)
  have last: "make_move_to s (- 1) =
      (if cells (grid s) ! 8 \<noteq> CHR '' '' then Inl InvalidMove else Inl MalformedBoard)"
    using len
    by (simp add: make_move_to_def py_getitem_def Let_def py_slice_to_def py_slice_from_def
        py_slice_bound_def Grid_init_def validate_grid_def mark_value_def)
  from far last show ?thesis by blast
qed

theorem make_move_to_far_index_witness:
  "is_position \<lparr>grid = \<lparr>cells = ''         ''\<rparr>, starting_mark = CROSS\<rparr>
   \<and> make_move_to \<lparr>grid = \<lparr>cells = ''         ''\<rparr>, starting_mark = CROSS\<rparr> 9 = Inl IndexError
   \<and> make_move_to \<lparr>grid = \<lparr>cells = ''         ''\<rparr>, starting_mark = CROSS\<rparr> (- 10) = Inl IndexError
   \<and> make_move_to \<lparr>grid = \<lparr>cells = ''         ''\<rparr>, starting_mark = CROSS\<rparr> (- 1) = Inl MalformedBoard"
proof -
  let ?s = "\<lparr>grid = \<lparr>cells = ''         ''\<rparr>, starting_mark = CROSS\<rparr>"
  have pos: "is_position ?s" by code_simp
  show ?thesis
    using pos make_move_to_far_index [OF pos, of 9] make_move_to_far_index [OF pos, of "- 10"]
    by simp
qed

text \<open>
  The claim C6 as it was stated fails on the empty board at index -9: a move on
  cell 0 is returned.
\<close>

theorem make_move_to_negative_nine_counterexample:
  "is_position \<lparr>grid = \<lparr>cells = ''         ''\<rparr>, starting_mark = CROSS\<rparr>
   \<and> \<not> (0 \<le> (- 9 :: int) \<and> (- 9 :: int) < 9)
   \<and> make_move_to \<lparr>grid = \<lparr>cells = ''         ''\<rparr>, starting_mark = CROSS\<rparr> (- 9) =
       Inr \<lparr>mark = CROSS, cell_index = - 9,
            before_state = \<lparr>grid = \<lparr>cells = ''         ''\<rparr>, starting_mark = CROSS\<rparr>,
            after_state = \<lparr>grid = \<lparr>cells = ''X        ''\<rparr>, starting_mark = CROSS\<rparr>\<rparr>"
  by code_simp

text \<open>
  C7, as amended. For every Position \<open>p\<close> and every empty cell \<open>i\<close> from 0 to 8,
  let \<open>a\<close> be the state with the starting mark of \<open>p\<close> and the board of \<open>p\<close> with
  cell \<open>i\<close> set to the current mark. \<open>make_move_to\<close> returns a move exactly when
  \<open>a\<close> passes the construction check, and fails with the error of that check
  otherwise; the move returned records the current mark, the index \<open>i\<close>, \<open>p\<close> itself
  as the state before and \<open>a\<close> as the state after. \<open>a\<close> passes the check, and a
  move is returned, whenever \<open>p\<close> is not terminal and O holds no more cells than X.
  \<open>a\<close> differs from \<open>p\<close> at cell \<open>i\<close> only. \<open>p\<close> is a value: nothing is written to
  it.
\<close>

theorem make_move_to_empty_cell:
  assumes "is_position p" "0 \<le> i" "i < 9" "cells (grid p) ! nat i = CHR '' ''"
  shows "let a = \<lparr>grid = \<lparr>cells = (cells (grid p))[nat i := mark_char (current_mark p)]\<rparr>,
                  starting_mark = starting_mark p\<rparr>
         in make_move_to p i =
              (case validate_game_state a of
                 Some e \<Rightarrow> Inl e
               | None \<Rightarrow>
                   Inr \<lparr>mark = current_mark p, cell_index = i, before_state = p,
                        after_state = a\<rparr>)
            \<and> (\<not> game_over p \<and> o_count (grid p) \<le> x_count (grid p)
                 \<longrightarrow> validate_game_state a = None)
            \<and> starting_mark a = starting_mark p
            \<and> length (cells (grid a)) = length (cells (grid p))
            \<and> cells (grid a) ! nat i = mark_char (current_mark p)
            \<and> (\<forall>j. j \<noteq> nat i \<longrightarrow> cells (grid a) ! j = cells (grid p) ! j)"
proof -
  have n: "nat i < 9" using assms by simp
  then have "nat i < length (cells (grid p))"
    using assms by (simp add: position_length)
  then show ?thesis
    using assms(4) successor_accepted [OF assms(1) _ _ n assms(4)]
    by (simp add: Let_def make_move_to_in_range [OF assms(1-3)])
qed

theorem make_move_to_empty_cell_witness:
  "is_position \<lparr>grid = \<lparr>cells = ''X        ''\<rparr>, starting_mark = CROSS\<rparr>
   \<and> make_move_to \<lparr>grid = \<lparr>cells = ''X        ''\<rparr>, starting_mark = CROSS\<rparr> 4 =
       Inr \<lparr>mark = NAUGHT, cell_index = 4,
            before_state = \<lparr>grid = \<lparr>cells = ''X        ''\<rparr>, starting_mark = CROSS\<rparr>,
            after_state = \<lparr>grid = \<lparr>cells = ''X   O    ''\<rparr>, starting_mark = CROSS\<rparr>\<rparr>"
proof -
  let ?p = "\<lparr>grid = \<lparr>cells = ''X        ''\<rparr>, starting_mark = CROSS\<rparr>"
  have pos: "is_position ?p" by code_simp
  have cur: "current_mark ?p = NAUGHT" by code_simp
  have live: "\<not> game_over ?p" by code_simp
  have cnt: "o_count (grid ?p) \<le> x_count (grid ?p)" by code_simp
  show ?thesis
    using pos live cnt make_move_to_empty_cell [OF pos, of 4] by (simp add: cur Let_def)
qed

text \<open>
  The claim C7 as it was stated, a move for every empty cell of every Position, fails
  on a won board: with X holding the top row, the current mark O on cell 3 would
  complete the middle row, and the construction of the state after rejects a board
  on which both marks hold a line.
\<close>

theorem make_move_to_won_board_counterexample:
  "is_position \<lparr>grid = \<lparr>cells = ''XXX OO   ''\<rparr>, starting_mark = CROSS\<rparr>
   \<and> cells (grid \<lparr>grid = \<lparr>cells = ''XXX OO   ''\<rparr>, starting_mark = CROSS\<rparr>) ! 3 = CHR '' ''
   \<and> make_move_to \<lparr>grid = \<lparr>cells = ''XXX OO   ''\<rparr>, starting_mark = CROSS\<rparr> 3
       = Inl InvalidPosition"
  by code_simp

text \<open>
  C10, as amended. For every Position and every index \<open>i\<close> from -9 to -2,
  \<open>make_move_to\<close> raises no index error, raises \<open>InvalidMove\<close> exactly when cell
  \<open>i + 9\<close> is occupied, and otherwise does what the move on \<open>i + 9\<close> does: the
  same error when the state after is rejected at construction, else the same move
  with the field \<open>cell_index\<close> holding \<open>i\<close>.
\<close>

theorem make_move_to_negative_index:
  assumes "is_position s" "- 9 \<le> i" "i \<le> - 2"
  shows "make_move_to s i \<noteq> Inl IndexError
       \<and> (make_move_to s i = Inl InvalidMove) = (cells (grid s) ! nat (i + 9) \<noteq> CHR '' '')
       \<and> make_move_to s i =
           (case make_move_to s (i + 9) of
              Inl e \<Rightarrow> Inl e
            | Inr m \<Rightarrow> Inr (m\<lparr>cell_index := i\<rparr>))"
proof -
  have up: "0 \<le> i + 9" "i + 9 < 9" using assms by simp_all
  note neg = make_move_to_negative [OF assms]
  note pos = make_move_to_in_range [OF assms(1) up]
  have "make_move_to s i \<noteq> Inl IndexError"
    by (auto simp: neg split: option.splits dest: validate_game_state_error)
  moreover have "(make_move_to s i = Inl InvalidMove) = (cells (grid s) ! nat (i + 9) \<noteq> CHR '' '')"
    using validate_game_state_error by (fastforce simp: neg split: option.splits)
  moreover have "make_move_to s i =
      (case make_move_to s (i + 9) of Inl e \<Rightarrow> Inl e | Inr m \<Rightarrow> Inr (m\<lparr>cell_index := i\<rparr>))"
    by (simp add: neg pos split: option.splits)
  ultimately show ?thesis by simp
qed

theorem make_move_to_negative_index_witness:
  "is_position \<lparr>grid = \<lparr>cells = ''X        ''\<rparr>, starting_mark = CROSS\<rparr>
   \<and> make_move_to \<lparr>grid = \<lparr>cells = ''X        ''\<rparr>, starting_mark = CROSS\<rparr> (- 9) = Inl InvalidMove
   \<and> make_move_to \<lparr>grid = \<lparr>cells = ''X        ''\<rparr>, starting_mark = CROSS\<rparr> (- 5) =
       Inr \<lparr>mark = NAUGHT, cell_index = - 5,
            before_state = \<lparr>grid = \<lparr>cells = ''X        ''\<rparr>, starting_mark = CROSS\<rparr>,
            after_state = \<lparr>grid = \<lparr>cells = ''X   O    ''\<rparr>, starting_mark = CROSS\<rparr>\<rparr>"
proof -
  let ?s = "\<lparr>grid = \<lparr>cells = ''X        ''\<rparr>, starting_mark = CROSS\<rparr>"
  have pos: "is_position ?s" by code_simp
  have four: "make_move_to ?s 4 =
       Inr \<lparr>mark = NAUGHT, cell_index = 4, before_state = ?s,
            after_state = \<lparr>grid = \<lparr>cells = ''X   O    ''\<rparr>, starting_mark = CROSS\<rparr>\<rparr>"
    by code_simp
  show ?thesis
    using pos make_move_to_negative_index [OF pos, of "- 9"]
      make_move_to_negative_index [OF pos, of "- 5"]
    by (simp add: four)
qed

text \<open>
  The claim C10 as it was stated, a move whenever cell \<open>i + 9\<close> is empty, fails on
  the won board above at index -6: cell 3 is empty and no move is returned.
\<close>

theorem make_move_to_negative_won_board_counterexample:
  "is_position \<lparr>grid = \<lparr>cells = ''XXX OO   ''\<rparr>, starting_mark = CROSS\<rparr>
   \<and> cells (grid \<lparr>grid = \<lparr>cells = ''XXX OO   ''\<rparr>, starting_mark = CROSS\<rparr>) ! nat (- 6 + 9)
       = CHR '' ''
   \<and> make_move_to \<lparr>grid = \<lparr>cells = ''XXX OO   ''\<rparr>, starting_mark = CROSS\<rparr> (- 6)
       = Inl InvalidPosition"
  by code_simp

subsection \<open>The possible moves\<close>

lemma NAUGHT_twice_rejected:
  assumes "n < length (cells (grid s))" "cells (grid s) ! n = CHR '' ''"
    and "x_count (grid s) < o_count (grid s)"
  shows "validate_game_state
           \<lparr>grid = \<lparr>cells = (cells (grid s))[n := CHR ''O'']\<rparr>, starting_mark = k\<rparr>
         = Some InvalidPosition"
proof -
  have "x_count \<lparr>cells = (cells (grid s))[n := CHR ''O'']\<rparr> = x_count (grid s)"
    using assms by (simp add: x_count_def count_list_update_other)
  moreover have "o_count \<lparr>cells = (cells (grid s))[n := CHR ''O'']\<rparr> = Suc (o_count (grid s))"
    using assms by (simp add: o_count_def count_list_update_new)
  ultimately show ?thesis
    using assms(3) by (simp add: validate_game_state_def Let_def)
qed

lemma open_game_has_space:
  assumes "\<not> game_over s"
  shows "\<exists>n<length (cells (grid s)). cells (grid s) ! n = CHR '' ''"
proof -
  from assms have "count_list (cells (grid s)) (CHR '' '') \<noteq> 0"
    by (auto simp: game_over_def tie_def empty_count_def)
  then have "CHR '' '' \<in> set (cells (grid s))"
    by (metis count_notin)
  then show ?thesis by (auto simp: in_set_conv_nth)
qed

lemma starts_of_spaces:
  assumes "is_position s"
  shows "finditer_starts is_space (cells (grid s)) =
           filter (\<lambda>n. cells (grid s) ! n = CHR '' '') [0..<9]"
proof -
  have blank: "is_space (CHR '' '')"
    by (simp add: is_space_def)
  have "is_space (cells (grid s) ! n) \<longleftrightarrow> cells (grid s) ! n = CHR '' ''" if "n < 9" for n
    using position_space [OF assms that] blank by auto
  then show ?thesis
    unfolding finditer_starts_def position_length [OF assms]
    by (intro filter_cong refl) simp
qed

lemma length_filter_positions:
  "length (filter (\<lambda>n. xs ! n = c) [0..<length xs]) = count_list xs c"
proof -
  have "length (filter (\<lambda>n. xs ! n = c) [0..<length xs]) =
        length (filter (\<lambda>x. x = c) (map (nth xs) [0..<length xs]))"
    by (simp add: filter_map comp_def)
  also have "\<dots> = count_list xs c"
    by (simp only: map_nth) (induction xs, auto)
  finally show ?thesis .
qed

lemma collect_moves_all:
  "\<forall>n\<in>set ns. make_move_to s (int n) = Inr (f n) \<Longrightarrow> collect_moves s ns = Inr (map f ns)"
  by (induction ns) auto

text \<open>
  Where the current mark is computed right, the moves are as expected: none when the
  game is over, and on an open Position in which O holds no more cells than X one
  move per empty cell, ascending, as many as \<open>empty_count\<close>.
\<close>

lemma possible_moves_over: "game_over s \<Longrightarrow> possible_moves s = Inr []"
  by (simp add: possible_moves_def)

lemma possible_moves_open:
  assumes pos: "is_position s" and live: "\<not> game_over s"
    and cnt: "o_count (grid s) \<le> x_count (grid s)"
  shows "possible_moves s =
           Inr (map (\<lambda>n. \<lparr>mark = current_mark s, cell_index = int n, before_state = s,
                           after_state =
                             \<lparr>grid = \<lparr>cells = (cells (grid s))[n := mark_char (current_mark s)]\<rparr>,
                              starting_mark = starting_mark s\<rparr>\<rparr>)
                    (filter (\<lambda>n. cells (grid s) ! n = CHR '' '') [0..<9]))"
    and "length (filter (\<lambda>n. cells (grid s) ! n = CHR '' '') [0..<9]) = empty_count (grid s)"
proof -
  show "length (filter (\<lambda>n. cells (grid s) ! n = CHR '' '') [0..<9]) = empty_count (grid s)"
    using length_filter_positions [of "cells (grid s)" "CHR '' ''"]
    by (simp add: position_length [OF pos] empty_count_def)
  have "make_move_to s (int n) =
          Inr \<lparr>mark = current_mark s, cell_index = int n, before_state = s,
               after_state =
                 \<lparr>grid = \<lparr>cells = (cells (grid s))[n := mark_char (current_mark s)]\<rparr>,
                  starting_mark = starting_mark s\<rparr>\<rparr>"
    if "n \<in> set (filter (\<lambda>n. cells (grid s) ! n = CHR '' '') [0..<9])" for n
    using that successor_accepted [OF pos live cnt, of n]
    by (simp add: make_move_to_in_range [OF pos])
  then have "collect_moves s (filter (\<lambda>n. cells (grid s) ! n = CHR '' '') [0..<9]) =
           Inr (map (\<lambda>n. \<lparr>mark = current_mark s, cell_index = int n, before_state = s,
                           after_state =
                             \<lparr>grid = \<lparr>cells = (cells (grid s))[n := mark_char (current_mark s)]\<rparr>,
                              starting_mark = starting_mark s\<rparr>\<rparr>)
                    (filter (\<lambda>n. cells (grid s) ! n = CHR '' '') [0..<9]))"
    by (intro collect_moves_all ballI)
  then show "possible_moves s =
           Inr (map (\<lambda>n. \<lparr>mark = current_mark s, cell_index = int n, before_state = s,
                           after_state =
                             \<lparr>grid = \<lparr>cells = (cells (grid s))[n := mark_char (current_mark s)]\<rparr>,
                              starting_mark = starting_mark s\<rparr>\<rparr>)
                    (filter (\<lambda>n. cells (grid s) ! n = CHR '' '') [0..<9]))"
    using live by (simp add: possible_moves_def starts_of_spaces [OF pos])
qed

text \<open>
  C4. The claim: \<open>possible_moves\<close> is empty exactly when the game is over, and on every
  Position that is not terminal it returns one move per empty cell, ascending, as many
  as \<open>empty_count\<close>. The two lemmas above show this where the current mark is right.
  On every open Position in which NAUGHT started and holds one mark more than CROSS,
  the source raises instead: the current mark is computed as \<open>NAUGHT\<close> again, and the
  first move of the loop builds a board with two marks more of NAUGHT, which
  construction rejects.
\<close>

theorem possible_moves_raises_after_NAUGHT_opening:
  assumes "is_position s" "\<not> game_over s" "starting_mark s = NAUGHT"
    and "x_count (grid s) < o_count (grid s)"
  shows "possible_moves s = Inl InvalidPosition"
proof -
  let ?cs = "cells (grid s)"
  have len: "length ?cs = 9" using assms(1) by (rule position_length)
  obtain k where k: "k < 9" "?cs ! k = CHR '' ''"
    using open_game_has_space [OF assms(2)] len by auto
  then have "k \<in> set (finditer_starts is_space ?cs)"
    by (simp add: finditer_starts_def len is_space_def)
  then obtain n ns where ns: "finditer_starts is_space ?cs = n # ns"
    by (cases "finditer_starts is_space ?cs") auto
  then have "n \<in> set (finditer_starts is_space ?cs)" by simp
  then have n: "n < 9" "is_space (?cs ! n)"
    by (simp_all add: finditer_starts_def len)
  then have empty: "?cs ! n = CHR '' ''"
    by (rule position_space [OF assms(1)])
  have cur: "current_mark s = NAUGHT"
    using assms(4) by (simp add: current_mark_def other_def)
  have "make_move_to s (int n) = Inl InvalidPosition"
    using n(1) empty NAUGHT_twice_rejected [of n s, OF _ empty assms(4)]
    by (simp add: make_move_to_in_range [OF assms(1)] cur len)
  then show ?thesis
    using assms(2) by (simp add: possible_moves_def ns)
qed

theorem possible_moves_raises_after_NAUGHT_opening_witness:
  "is_position \<lparr>grid = \<lparr>cells = ''O        ''\<rparr>, starting_mark = NAUGHT\<rparr>
   \<and> game_over \<lparr>grid = \<lparr>cells = ''O        ''\<rparr>, starting_mark = NAUGHT\<rparr> = False
   \<and> empty_count \<lparr>cells = ''O        ''\<rparr> = 8
   \<and> possible_moves \<lparr>grid = \<lparr>cells = ''O        ''\<rparr>, starting_mark = NAUGHT\<rparr>
       = Inl InvalidPosition"
proof -
  let ?s = "\<lparr>grid = \<lparr>cells = ''O        ''\<rparr>, starting_mark = NAUGHT\<rparr>"
  have pos: "is_position ?s" by code_simp
  have live: "\<not> game_over ?s" by code_simp
  have cnt: "x_count (grid ?s) < o_count (grid ?s)" by code_simp
  have emp: "empty_count \<lparr>cells = ''O        ''\<rparr> = 8" by code_simp
  show ?thesis
    using pos live emp possible_moves_raises_after_NAUGHT_opening [OF pos live _ cnt] by simp
qed

end
